theory Spec2Isabelle
  imports Main "HOL-Library.Char_ord" "HOL-Library.List_Lexorder" "HOL-Library.AList"
begin

section \<open>Strings and paths\<close>

text \<open>
  Python strings are modelled as \<open>string\<close> (lists of 8-bit characters). The character
  classes of the source are read over that alphabet: \<open>\d\<close> is the ten ASCII digits and the
  regular expression's \<open>.\<close> is every character but the line feed.
\<close>

abbreviation newline :: char where
  "newline \<equiv> CHR 0x0A"

definition startswith :: "string \<Rightarrow> string \<Rightarrow> bool" where
  "startswith s p = (take (length p) s = p)"

definition endswith :: "string \<Rightarrow> string \<Rightarrow> bool" where
  "endswith s p = (length p \<le> length s \<and> drop (length s - length p) s = p)"

definition isdigit :: "char \<Rightarrow> bool" where
  "isdigit c = (CHR ''0'' \<le> c \<and> c \<le> CHR ''9'')"

text \<open>
  \<open>Folder.get_name\<close>: \<open>re.match\<close> of \<open>^\d+\.(?P<name>.+)\<close>. The digits are matched
  greedily and the next character has to be the dot, so the digit run is the maximal one;
  the group \<open>name\<close> is the non-empty run of characters up to the first line feed.
\<close>

definition get_name :: "string \<Rightarrow> string" where
  "get_name nm =
     (let ds = takeWhile isdigit nm; rest = dropWhile isdigit nm in
      case rest of
        [] \<Rightarrow> nm
      | c # r \<Rightarrow>
          (let g = takeWhile (\<lambda>x. x \<noteq> newline) r in
           if ds \<noteq> [] \<and> c = CHR ''.'' \<and> g \<noteq> [] then g else nm))"

text \<open>\<open>str.rfind\<close> for a single character: the highest index, or \<open>-1\<close>.\<close>

definition rfind :: "string \<Rightarrow> char \<Rightarrow> int" where
  "rfind s c =
     (if c \<in> set s then int (length s) - 1 - int (length (takeWhile (\<lambda>x. x \<noteq> c) (rev s)))
      else - 1)"

text \<open>
  \<open>os.path.splitext\<close> (POSIX): the extension starts at the last dot after the last
  slash, unless only dots precede it in the file name.
\<close>

definition splitext :: "string \<Rightarrow> string \<times> string" where
  "splitext p =
     (let sepIndex = rfind p CHR ''/''; dotIndex = rfind p CHR ''.'' in
      if dotIndex > sepIndex \<and>
         list_ex (\<lambda>c. c \<noteq> CHR ''.'')
           (take (nat (dotIndex - (sepIndex + 1))) (drop (nat (sepIndex + 1)) p))
      then (take (nat dotIndex) p, drop (nat dotIndex) p)
      else (p, []))"

text \<open>\<open>os.path.join\<close> (POSIX) of two components.\<close>

definition join :: "string \<Rightarrow> string \<Rightarrow> string" where
  "join a b =
     (if startswith b ''/'' then b
      else if a = [] \<or> endswith a ''/'' then a @ b
      else a @ ''/'' @ b)"

section \<open>Errors and front-matter values\<close>

text \<open>
  Every exception of the source is a value: a function that can raise returns
  \<open>error + 'a\<close>, and the first \<open>Inl\<close> ends the run, as the uncaught exception ends the
  process. \<open>SystemError\<close> is what \<open>parse_md_file\<close> raises at both of its checks (the
  specification calls it FormatError); the others are raised by the libraries.
\<close>

datatype error =
    SystemError
  | YAMLError
  | TypeError
  | AttributeError
  | JinjaError
  | OSError
  | FileNotFoundError
  | FileExistsError
  | IsADirectoryError
  | NotADirectoryError
  | ShutilError

text \<open>
  What \<open>yaml.load\<close> can return. A mapping is an association list in insertion order
  with distinct keys, as a Python \<open>dict\<close>.
\<close>

datatype yval =
    YNone
  | YBool bool
  | YInt int
  | YStr string
  | YList "yval list"
  | YDict "(yval \<times> yval) list"

text \<open>\<open>page[k] = v\<close>: only a \<open>dict\<close> supports it with a string key.\<close>

fun setitem :: "yval \<Rightarrow> yval \<Rightarrow> yval \<Rightarrow> error + yval" where
  "setitem (YDict d) k v = Inr (YDict (AList.update k v d))"
| "setitem _ k v = Inl TypeError"

text \<open>\<open>d.get(k, default)\<close>: an attribute of \<open>dict\<close> alone among the values above.\<close>

fun dict_get :: "yval \<Rightarrow> yval \<Rightarrow> yval \<Rightarrow> error + yval" where
  "dict_get (YDict d) k dflt = Inr (case map_of d k of None \<Rightarrow> dflt | Some v \<Rightarrow> v)"
| "dict_get _ k dflt = Inl AttributeError"

section \<open>Front-matter parser\<close>

text \<open>
  An open text file is the text still to be read. \<open>readline\<close> returns the next line with
  its line feed, the rest without one at the end of the file, and the empty string from
  then on.
\<close>

fun readline :: "string \<Rightarrow> string \<times> string" where
  "readline [] = ([], [])"
| "readline (c # cs) =
     (if c = newline then ([c], cs)
      else (case readline cs of (l, r) \<Rightarrow> (c # l, r)))"

text \<open>
  The \<open>while\<close> loop of \<open>parse_md_file\<close>: \<open>i\<close> counts the lines appended so far,
  \<open>line\<close> is the line just read and \<open>f\<close> the file after it.
\<close>

function header_loop ::
  "nat \<Rightarrow> string list \<Rightarrow> string \<Rightarrow> string \<Rightarrow> error + (string list \<times> string)" where
  "header_loop i lines line f =
     (if startswith line ''---'' then Inr (lines, f)
      else if i > 50 then Inl SystemError
      else (case readline f of (line', f') \<Rightarrow> header_loop (i + 1) (lines @ [line]) line' f'))"
  by pat_completeness auto
termination
  by (relation "measure (\<lambda>(i, lines, line, f). 51 - i)") auto

declare header_loop.simps [simp del]

text \<open>
  \<open>parse_md_file(path, header_only)\<close>, on the text that \<open>open(path, 'r')\<close> delivers.
  The two library calls are parameters: \<open>yaml_load\<close> is \<open>yaml.load\<close> (\<open>None\<close> when it
  raises) and \<open>to_html\<close> is \<open>cmark.to_html\<close>.
\<close>

definition parse_md_file ::
  "(string \<Rightarrow> yval option) \<Rightarrow> (string \<Rightarrow> string) \<Rightarrow> string \<Rightarrow> bool \<Rightarrow> error + yval" where
  "parse_md_file yaml_load to_html text header_only =
     (case readline text of (first, f1) \<Rightarrow>
        if \<not> startswith first ''---'' then Inl SystemError
        else
          (case readline f1 of (line, f2) \<Rightarrow>
             (case header_loop 0 [] line f2 of
                Inl e \<Rightarrow> Inl e
              | Inr (lines, f) \<Rightarrow>
                  (case yaml_load (concat lines) of
                     None \<Rightarrow> Inl YAMLError
                   | Some page \<Rightarrow>
                       if \<not> header_only
                       then setitem page (YStr ''content'') (YStr (to_html f))
                       else Inr page))))"

section \<open>Content tree scanner\<close>

text \<open>
  A directory entry as \<open>os.scandir\<close> shows it: a regular file with its text, a directory
  with its listing (in the order \<open>scandir\<close> yields it), or a symbolic link with what it
  resolves to (\<open>None\<close> for a dangling link). \<open>is_file\<close> and \<open>is_dir\<close> follow links, as
  the methods of \<open>DirEntry\<close> do by default. Device nodes, sockets and pipes are not
  modelled, nor is a link that leads back into a directory above it (it has no finite
  value here).
\<close>

datatype node =
    File string
  | Dir "(string \<times> node) list"
  | Symlink "node option"

fun is_file :: "node \<Rightarrow> bool" where
  "is_file (File c) = True"
| "is_file (Dir es) = False"
| "is_file (Symlink None) = False"
| "is_file (Symlink (Some t)) = is_file t"

fun is_dir :: "node \<Rightarrow> bool" where
  "is_dir (File c) = False"
| "is_dir (Dir es) = True"
| "is_dir (Symlink None) = False"
| "is_dir (Symlink (Some t)) = is_dir t"

text \<open>The text read from an entry for which \<open>is_file\<close> holds.\<close>

fun contents :: "node \<Rightarrow> string" where
  "contents (File c) = c"
| "contents (Dir es) = []"
| "contents (Symlink None) = []"
| "contents (Symlink (Some t)) = contents t"

text \<open>
  The class \<open>Folder\<close>. The back reference \<open>parent\<close> is left out: no function of the
  source reads it.
\<close>

datatype folder =
  Folder (path: string) (name: string) (is_index: bool) (index: yval)
    (folders: "folder list") (files: "(string \<times> string) list")

text \<open>The two \<open>sort\<close> calls that end \<open>_scan\<close>.\<close>

definition sort_lists :: "folder \<Rightarrow> folder" where
  "sort_lists self =
     Folder (path self) (name self) (is_index self) (index self)
       (sort_key path (folders self)) (sort_key fst (files self))"

text \<open>
  \<open>Folder.__init__\<close> on what is at \<open>path\<close>, and \<open>scan\<close>, the \<open>for\<close> loop of
  \<open>Folder._scan\<close> over the entries still to visit, \<open>self\<close> being the folder so far.
\<close>

fun Folder_init ::
    "(string \<Rightarrow> yval option) \<Rightarrow> (string \<Rightarrow> string) \<Rightarrow> string \<Rightarrow> string \<Rightarrow> node \<Rightarrow> error + folder"
  and scan ::
    "(string \<Rightarrow> yval option) \<Rightarrow> (string \<Rightarrow> string) \<Rightarrow> (string \<times> node) list \<Rightarrow> folder \<Rightarrow> error + folder"
where
  "Folder_init yaml_load to_html p nm (Dir es) =
     scan yaml_load to_html es (Folder p nm False (YDict []) [] [])"
| "Folder_init yaml_load to_html p nm (Symlink (Some t)) = Folder_init yaml_load to_html p nm t"
| "Folder_init yaml_load to_html p nm (Symlink None) = Inl FileNotFoundError"
| "Folder_init yaml_load to_html p nm (File c) = Inl NotADirectoryError"
| "scan yaml_load to_html [] self = Inr (sort_lists self)"
| "scan yaml_load to_html ((xname, x) # es) self =
     (if is_file x \<and> endswith xname ''.md'' then
        (if xname = ''_index.md'' then
           (case parse_md_file yaml_load to_html (contents x) True of
              Inl e \<Rightarrow> Inl e
            | Inr ix \<Rightarrow>
                scan yaml_load to_html es
                  (Folder (path self) (name self) True ix (folders self) (files self)))
         else
           scan yaml_load to_html es
             (Folder (path self) (name self) (is_index self) (index self) (folders self)
                (files self @ [(xname, fst (splitext (get_name xname)))])))
      else if is_dir x \<and> \<not> startswith xname ''.'' then
        (case Folder_init yaml_load to_html (join (path self) xname) (get_name xname) x of
           Inl e \<Rightarrow> Inl e
         | Inr folder \<Rightarrow>
             scan yaml_load to_html es
               (Folder (path self) (name self) (is_index self) (index self)
                  (folders self @ [folder]) (files self)))
      else scan yaml_load to_html es self)"

section \<open>Build orchestrator\<close>

text \<open>
  What the rendering pass does to the file system, as the list of its calls in order:
  \<open>Makedirs p\<close> is \<open>App.mkdir\<close> arriving at \<open>p\<close> (\<open>os.makedirs\<close> with
  \<open>exist_ok\<close>, skipped when \<open>p\<close> exists), \<open>WriteFile p s\<close> is \<open>open(p, 'w')\<close>
  followed by the write of \<open>s\<close>.
\<close>

datatype fs_op =
    Makedirs string
  | WriteFile string string

definition mkdir :: "string \<Rightarrow> string \<Rightarrow> string \<times> fs_op list" where
  "mkdir a b = (let p = join a b in (p, [Makedirs p]))"

text \<open>
  \<open>App._write\<close>. The template engine is a parameter: \<open>render template folder page\<close> is
  the text of \<open>get_template(template).render(...)\<close> for the run's configuration, root
  and data, and \<open>None\<close> when the template is missing or rendering raises.
\<close>

definition write_page ::
  "(yval \<Rightarrow> folder \<Rightarrow> yval \<Rightarrow> string option) \<Rightarrow> yval \<Rightarrow> string \<Rightarrow> folder \<Rightarrow> yval
    \<Rightarrow> error + fs_op list" where
  "write_page render template p folder page =
     (case render template folder page of
        None \<Rightarrow> Inl JinjaError
      | Some s \<Rightarrow> Inr [WriteFile (join p ''index.html'') s])"

text \<open>
  The two template selections of \<open>App._build\<close>. In the second, Python evaluates the
  default, \<open>folder.index.get(...)\<close>, before the outer \<open>get\<close>.
\<close>

definition index_template :: "yval \<Rightarrow> error + yval" where
  "index_template page = dict_get page (YStr ''template'') (YStr ''index.html'')"

definition file_template :: "yval \<Rightarrow> yval \<Rightarrow> error + yval" where
  "file_template page folder_index =
     (case dict_get folder_index (YStr ''files_template'') (YStr ''page.html'') of
        Inl e \<Rightarrow> Inl e
      | Inr dflt \<Rightarrow> dict_get page (YStr ''template'') dflt)"

text \<open>
  The \<open>if folder.is_index\<close> block of \<open>App._build\<close>. \<open>read\<close> is the file system as
  \<open>open(path, 'r')\<close> sees it during the build: the text at a path, \<open>None\<close> when the
  file cannot be opened.
\<close>

definition build_index ::
  "(string \<Rightarrow> yval option) \<Rightarrow> (string \<Rightarrow> string) \<Rightarrow> (string \<Rightarrow> string option) \<Rightarrow>
   (yval \<Rightarrow> folder \<Rightarrow> yval \<Rightarrow> string option) \<Rightarrow> folder \<Rightarrow> string \<Rightarrow> error + fs_op list" where
  "build_index yaml_load to_html read render folder out_dir =
     (case read (join (path folder) ''_index.md'') of
        None \<Rightarrow> Inl OSError
      | Some text \<Rightarrow>
          (case parse_md_file yaml_load to_html text False of
             Inl e \<Rightarrow> Inl e
           | Inr page \<Rightarrow>
               (case index_template page of
                  Inl e \<Rightarrow> Inl e
                | Inr template \<Rightarrow>
                    (case mkdir out_dir (name folder) of
                       (p, ops) \<Rightarrow>
                         (case write_page render template p folder page of
                            Inl e \<Rightarrow> Inl e
                          | Inr w \<Rightarrow> Inr (ops @ w))))))"

text \<open>The body of \<open>for f in folder.files\<close>, for one pair \<open>f\<close>.\<close>

definition build_file ::
  "(string \<Rightarrow> yval option) \<Rightarrow> (string \<Rightarrow> string) \<Rightarrow> (string \<Rightarrow> string option) \<Rightarrow>
   (yval \<Rightarrow> folder \<Rightarrow> yval \<Rightarrow> string option) \<Rightarrow> folder \<Rightarrow> string \<times> string \<Rightarrow> string
    \<Rightarrow> error + fs_op list" where
  "build_file yaml_load to_html read render folder f out_dir =
     (case read (join (path folder) (fst f)) of
        None \<Rightarrow> Inl OSError
      | Some text \<Rightarrow>
          (case parse_md_file yaml_load to_html text False of
             Inl e \<Rightarrow> Inl e
           | Inr page \<Rightarrow>
               (case file_template page (index folder) of
                  Inl e \<Rightarrow> Inl e
                | Inr template \<Rightarrow>
                    (case mkdir out_dir (snd f) of
                       (p, ops) \<Rightarrow>
                         (case write_page render template p folder page of
                            Inl e \<Rightarrow> Inl e
                          | Inr w \<Rightarrow> Inr (ops @ w))))))"

fun build_files ::
  "(string \<Rightarrow> yval option) \<Rightarrow> (string \<Rightarrow> string) \<Rightarrow> (string \<Rightarrow> string option) \<Rightarrow>
   (yval \<Rightarrow> folder \<Rightarrow> yval \<Rightarrow> string option) \<Rightarrow> folder \<Rightarrow> (string \<times> string) list \<Rightarrow> string
    \<Rightarrow> error + fs_op list" where
  "build_files yaml_load to_html read render folder [] out_dir = Inr []"
| "build_files yaml_load to_html read render folder (f # fs) out_dir =
     (case build_file yaml_load to_html read render folder f out_dir of
        Inl e \<Rightarrow> Inl e
      | Inr ops \<Rightarrow>
          (case build_files yaml_load to_html read render folder fs out_dir of
             Inl e \<Rightarrow> Inl e
           | Inr ops' \<Rightarrow> Inr (ops @ ops')))"

text \<open>
  \<open>App._build\<close>, and \<open>build_folders\<close>, its last loop (\<open>for f in folder.folders\<close>).
\<close>

fun build_folder ::
    "(string \<Rightarrow> yval option) \<Rightarrow> (string \<Rightarrow> string) \<Rightarrow> (string \<Rightarrow> string option) \<Rightarrow>
     (yval \<Rightarrow> folder \<Rightarrow> yval \<Rightarrow> string option) \<Rightarrow> folder \<Rightarrow> string \<Rightarrow> error + fs_op list"
  and build_folders ::
    "(string \<Rightarrow> yval option) \<Rightarrow> (string \<Rightarrow> string) \<Rightarrow> (string \<Rightarrow> string option) \<Rightarrow>
     (yval \<Rightarrow> folder \<Rightarrow> yval \<Rightarrow> string option) \<Rightarrow> folder list \<Rightarrow> string \<Rightarrow> error + fs_op list"
where
  "build_folder yaml_load to_html read render (Folder p nm ix_flag ix fds fls) out_dir =
     (case (if ix_flag
            then build_index yaml_load to_html read render (Folder p nm ix_flag ix fds fls) out_dir
            else Inr []) of
        Inl e \<Rightarrow> Inl e
      | Inr ops1 \<Rightarrow>
          (case build_files yaml_load to_html read render (Folder p nm ix_flag ix fds fls) fls
                  out_dir of
             Inl e \<Rightarrow> Inl e
           | Inr ops2 \<Rightarrow>
               (case build_folders yaml_load to_html read render fds out_dir of
                  Inl e \<Rightarrow> Inl e
                | Inr ops3 \<Rightarrow> Inr (ops1 @ ops2 @ ops3))))"
| "build_folders yaml_load to_html read render [] out_dir = Inr []"
| "build_folders yaml_load to_html read render (f # fs) out_dir =
     (case build_folder yaml_load to_html read render f (join out_dir (name f)) of
        Inl e \<Rightarrow> Inl e
      | Inr ops \<Rightarrow>
          (case build_folders yaml_load to_html read render fs out_dir of
             Inl e \<Rightarrow> Inl e
           | Inr ops' \<Rightarrow> Inr (ops @ ops')))"

text \<open>
  The clean step of \<open>App.build\<close>. The output root is \<open>None\<close> when
  \<open>os.path.exists\<close> fails and its listing otherwise. \<open>shutil.rmtree\<close> removes a
  directory with all below it and refuses a symbolic link; \<open>os.unlink\<close> removes any
  entry that is not a directory.
\<close>

fun rmtree :: "node \<Rightarrow> error + unit" where
  "rmtree (Dir es) = Inr ()"
| "rmtree (Symlink t) = Inl OSError"
| "rmtree (File c) = Inl NotADirectoryError"

fun clean_entries :: "(string \<times> node) list \<Rightarrow> error + (string \<times> node) list" where
  "clean_entries [] = Inr []"
| "clean_entries ((xname, x) # es) =
     (if xname = ''.git'' then
        (case clean_entries es of Inl e \<Rightarrow> Inl e | Inr r \<Rightarrow> Inr ((xname, x) # r))
      else if is_dir x then
        (case rmtree x of Inl e \<Rightarrow> Inl e | Inr u \<Rightarrow> clean_entries es)
      else clean_entries es)"

definition clean :: "(string \<times> node) list option \<Rightarrow> error + (string \<times> node) list option" where
  "clean out =
     (case out of
        None \<Rightarrow> Inr None
      | Some es \<Rightarrow> (case clean_entries es of Inl e \<Rightarrow> Inl e | Inr r \<Rightarrow> Inr (Some r)))"

section \<open>Static asset copier\<close>

text \<open>
  \<open>open(dst, 'wb')\<close> and the write of \<open>c\<close>, on what is at \<open>dst\<close>: a missing file is
  created, a file is replaced, a link is written through, a directory cannot be opened.
\<close>

fun write_through :: "string \<Rightarrow> node option \<Rightarrow> error + node" where
  "write_through c None = Inr (File c)"
| "write_through c (Some (File c')) = Inr (File c)"
| "write_through c (Some (Dir es)) = Inl IsADirectoryError"
| "write_through c (Some (Symlink None)) = Inr (Symlink (Some (File c)))"
| "write_through c (Some (Symlink (Some t))) =
     (case write_through c (Some t) of Inl e \<Rightarrow> Inl e | Inr t' \<Rightarrow> Inr (Symlink (Some t')))"

text \<open>
  \<open>shutil.copy(src, dst)\<close> for a source with text \<open>c\<close> and base name \<open>xname\<close>, on what
  is at \<open>dst\<close>: when \<open>dst\<close> is a directory (links followed) the file goes inside it,
  under the source's base name.
\<close>

fun shutil_copy :: "string \<Rightarrow> string \<Rightarrow> node option \<Rightarrow> error + node" where
  "shutil_copy c xname (Some (Dir es)) =
     (case write_through c (map_of es xname) of
        Inl e \<Rightarrow> Inl e
      | Inr x' \<Rightarrow> Inr (Dir (AList.update xname x' es)))"
| "shutil_copy c xname (Some (Symlink (Some t))) =
     (if is_dir t then
        (case shutil_copy c xname (Some t) of
           Inl e \<Rightarrow> Inl e
         | Inr t' \<Rightarrow> Inr (Symlink (Some t')))
      else write_through c (Some (Symlink (Some t))))"
| "shutil_copy c xname dst = write_through c dst"

text \<open>
  What \<open>shutil.copytree\<close> writes for a source tree: links are followed, and a dangling
  link makes the call raise once the rest is copied.
\<close>

fun copytree_node :: "node \<Rightarrow> error + node"
  and copytree_entries :: "(string \<times> node) list \<Rightarrow> error + (string \<times> node) list" where
  "copytree_node (File c) = Inr (File c)"
| "copytree_node (Dir es) =
     (case copytree_entries es of Inl e \<Rightarrow> Inl e | Inr es' \<Rightarrow> Inr (Dir es'))"
| "copytree_node (Symlink None) = Inl ShutilError"
| "copytree_node (Symlink (Some t)) = copytree_node t"
| "copytree_entries [] = Inr []"
| "copytree_entries ((xname, x) # es) =
     (case copytree_node x of
        Inl e \<Rightarrow> Inl e
      | Inr x' \<Rightarrow>
          (case copytree_entries es of Inl e \<Rightarrow> Inl e | Inr es' \<Rightarrow> Inr ((xname, x') # es')))"

text \<open>
  \<open>shutil.copytree(src, dst)\<close> on what is at \<open>dst\<close>: \<open>os.makedirs(dst)\<close> raises when
  anything is there.
\<close>

fun shutil_copytree :: "node \<Rightarrow> node option \<Rightarrow> error + node" where
  "shutil_copytree x None = copytree_node x"
| "shutil_copytree x (Some y) = Inl FileExistsError"

text \<open>
  The inner function \<open>copy(src)\<close> of \<open>App._copy_static_files\<close>, over the listing of
  \<open>src\<close>; \<open>out\<close> is the output root as in the clean step. \<open>dst\<close> is the entry
  \<open>x.name\<close> of the output root. Without an output root \<open>shutil.copy\<close> has no
  directory to write into, while \<open>shutil.copytree\<close> creates it.
\<close>

fun copy ::
  "(string \<times> node) list \<Rightarrow> (string \<times> node) list option
    \<Rightarrow> error + (string \<times> node) list option" where
  "copy [] out = Inr out"
| "copy ((xname, x) # es) out =
     (if is_file x then
        (case out of
           None \<Rightarrow> Inl FileNotFoundError
         | Some os \<Rightarrow>
             (case shutil_copy (contents x) xname (map_of os xname) of
                Inl e \<Rightarrow> Inl e
              | Inr y \<Rightarrow> copy es (Some (AList.update xname y os))))
      else if is_dir x then
        (case shutil_copytree x (case out of None \<Rightarrow> None | Some os \<Rightarrow> map_of os xname) of
           Inl e \<Rightarrow> Inl e
         | Inr y \<Rightarrow>
             copy es (Some (AList.update xname y (case out of None \<Rightarrow> [] | Some os \<Rightarrow> os))))
      else copy es out)"

text \<open>
  \<open>App._copy_static_files\<close>. \<open>static\<close> and \<open>theme_static\<close> are the listings of the
  site-wide and of the theme's static directory, \<open>None\<close> when \<open>os.path.exists\<close>
  fails. The three directories are taken to be distinct and not nested.
\<close>

definition copy_static_files ::
  "(string \<times> node) list option \<Rightarrow> (string \<times> node) list option \<Rightarrow> (string \<times> node) list option
    \<Rightarrow> error + (string \<times> node) list option" where
  "copy_static_files static theme_static out =
     (case (case static of None \<Rightarrow> Inr out | Some es \<Rightarrow> copy es out) of
        Inl e \<Rightarrow> Inl e
      | Inr out1 \<Rightarrow> (case theme_static of None \<Rightarrow> Inr out1 | Some es \<Rightarrow> copy es out1))"


section \<open>Notions used in the statements\<close>

text \<open>A line as \<open>readline\<close> returns it before the end of the file: it ends in its only line feed.\<close>

definition full_line :: "string \<Rightarrow> bool" where
  "full_line l = (l \<noteq> [] \<and> last l = newline \<and> newline \<notin> set (butlast l))"

text \<open>The next \<open>n\<close> results of \<open>readline\<close> on an open file.\<close>

fun read_lines :: "nat \<Rightarrow> string \<Rightarrow> string list" where
  "read_lines 0 f = []"
| "read_lines (Suc n) f = (case readline f of (l, r) \<Rightarrow> l # read_lines n r)"


text \<open>
  The content files of a listing, each with its derived name, and the entries of a
  listing that are scanned as subfolders.
\<close>

definition md_entries :: "(string \<times> node) list \<Rightarrow> (string \<times> string) list" where
  "md_entries es =
     map (\<lambda>(n, x). (n, fst (splitext (get_name n))))
       (filter (\<lambda>(n, x). is_file x \<and> endswith n ''.md'' \<and> n \<noteq> ''_index.md'') es)"

definition dir_entries :: "(string \<times> node) list \<Rightarrow> (string \<times> node) list" where
  "dir_entries es = filter (\<lambda>(n, x). is_dir x \<and> \<not> startswith n ''.'') es"

text \<open>
  The entry \<open>n\<close> of the output root, whether it is a directory, and the entry \<open>n\<close>
  of a directory node (links followed).
\<close>

definition entry :: "(string \<times> node) list option \<Rightarrow> string \<Rightarrow> node option" where
  "entry out n = (case out of None \<Rightarrow> None | Some os \<Rightarrow> map_of os n)"

definition dir_at :: "(string \<times> node) list option \<Rightarrow> string \<Rightarrow> bool" where
  "dir_at out n = (case entry out n of None \<Rightarrow> False | Some d \<Rightarrow> is_dir d)"

fun lookup_in :: "node \<Rightarrow> string \<Rightarrow> node option" where
  "lookup_in (Dir es) n = map_of es n"
| "lookup_in (Symlink (Some t)) n = lookup_in t n"
| "lookup_in x n = None"

text \<open>
  The text \<open>c\<close> is what \<open>y\<close> holds for the name \<open>n\<close>: \<open>y\<close> is a file with that
  text, or a directory whose entry \<open>n\<close> is.
\<close>

definition holds_copy :: "string \<Rightarrow> string \<Rightarrow> node \<Rightarrow> bool" where
  "holds_copy c n y =
     (if is_dir y
      then (case lookup_in y n of None \<Rightarrow> False | Some z \<Rightarrow> is_file z \<and> contents z = c)
      else is_file y \<and> contents y = c)"


section \<open>Fixtures of the concrete runs\<close>

text \<open>
  The values of \<open>yaml.load\<close> and of \<open>cmark.to_html\<close> on the texts that the runs
  below hand to them; neither table says anything about another text.
\<close>

definition yaml_table :: "string \<Rightarrow> yval option" where
  "yaml_table s =
     (if s = [] then Some YNone
      else if s = ''content: x\<newline>'' then Some (YDict [(YStr ''content'', YStr ''x'')])
      else if s = ''title: Home\<newline>'' then Some (YDict [(YStr ''title'', YStr ''Home'')])
      else if s = ''title: About\<newline>'' then Some (YDict [(YStr ''title'', YStr ''About'')])
      else if s = ''title: First\<newline>'' then Some (YDict [(YStr ''title'', YStr ''First'')])
      else if s = ''files_template: post.html\<newline>''
        then Some (YDict [(YStr ''files_template'', YStr ''post.html'')])
      else if s = ''template: custom.html\<newline>''
        then Some (YDict [(YStr ''template'', YStr ''custom.html'')])
      else None)"

definition html_table :: "string \<Rightarrow> string" where
  "html_table s =
     (if s = ''body\<newline>'' then ''<p>body</p>\<newline>''
      else if s = ''# Hi'' then ''<h1>Hi</h1>\<newline>''
      else [])"

text \<open>
  A content directory, the texts of its files as the build reads them, a theme whose
  every template renders to a line naming it, and the tree the scanner builds.
\<close>

definition content_tree :: node where
  "content_tree =
     Dir [(''blog'', Dir [(''2.special.md'', File ''---\<newline>template: custom.html\<newline>---\<newline>body\<newline>''),
                          (''_index.md'', File ''---\<newline>files_template: post.html\<newline>---\<newline>''),
                          (''1.first.md'', File ''---\<newline>title: First\<newline>---\<newline>body\<newline>'')]),
          (''_index.md'', File ''---\<newline>title: Home\<newline>---\<newline>''),
          (''10.about.md'', File ''---\<newline>title: About\<newline>---\<newline># Hi'')]"

definition content_read :: "string \<Rightarrow> string option" where
  "content_read p =
     (if p = ''content/_index.md'' then Some ''---\<newline>title: Home\<newline>---\<newline>''
      else if p = ''content/10.about.md'' then Some ''---\<newline>title: About\<newline>---\<newline># Hi''
      else if p = ''content/blog/_index.md''
        then Some ''---\<newline>files_template: post.html\<newline>---\<newline>''
      else if p = ''content/blog/1.first.md''
        then Some ''---\<newline>title: First\<newline>---\<newline>body\<newline>''
      else if p = ''content/blog/2.special.md''
        then Some ''---\<newline>template: custom.html\<newline>---\<newline>body\<newline>''
      else None)"

definition theme_render :: "yval \<Rightarrow> folder \<Rightarrow> yval \<Rightarrow> string option" where
  "theme_render template folder page =
     (case template of YStr t \<Rightarrow> Some (''rendered by '' @ t) | _ \<Rightarrow> None)"

definition blog_folder :: folder where
  "blog_folder =
     Folder ''content/blog'' ''blog'' True (YDict [(YStr ''files_template'', YStr ''post.html'')]) []
       [(''1.first.md'', ''first''), (''2.special.md'', ''special'')]"

definition content_root :: folder where
  "content_root =
     Folder ''content'' [] True (YDict [(YStr ''title'', YStr ''Home'')]) [blog_folder]
       [(''10.about.md'', ''about'')]"

text \<open>A listing with every kind of entry the scanner can meet.\<close>

definition mixed_listing :: "(string \<times> node) list" where
  "mixed_listing =
     [(''post.md'', Symlink (Some (File []))),
      (''.git'', Dir [(''HEAD.md'', File [])]),
      (''notes.txt'', File []),
      (''.draft.md'', File []),
      (''gone.md'', Symlink None),
      (''2.docs'', Symlink (Some (Dir [])))]"

section \<open>Theorems\<close>

subsection \<open>The front-matter parser\<close>

lemma readline_append:
  "newline \<notin> set t \<Longrightarrow> readline (t @ newline # r) = (t @ [newline], r)"
  by (induction t) auto

lemma readline_no_newline:
  "newline \<notin> set t \<Longrightarrow> readline t = (t, [])"
  by (induction t) auto

lemma readline_full_line:
  assumes "full_line l" shows "readline (l @ r) = (l, r)"
proof -
  from assms have "l = butlast l @ [newline]" and "newline \<notin> set (butlast l)"
    by (auto simp: full_line_def dest: append_butlast_last_id)
  then show ?thesis using readline_append [of "butlast l" r]
    by (metis append_Cons append_Nil append_assoc)
qed

lemma readline_concat: "readline f = (l, r) \<Longrightarrow> f = l @ r"
  by (induction f arbitrary: l r) (auto split: if_splits prod.splits)

lemma header_loop_found:
  assumes "\<forall>h \<in> set hs. full_line h \<and> \<not> startswith h ''---''"
    and "startswith cl ''---''"
    and "readline (cl @ body) = (cl, body)"
    and "i + length hs \<le> 51"
  shows "(case readline (concat hs @ cl @ body) of (line, f) \<Rightarrow> header_loop i acc line f)
         = Inr (acc @ hs, body)"
  using assms
proof (induction hs arbitrary: i acc)
  case Nil
  then show ?case by (simp add: header_loop.simps)
next
  case (Cons h hs)
  have rl: "readline (h @ concat hs @ cl @ body) = (h, concat hs @ cl @ body)"
    using Cons.prems(1) readline_full_line [of h] by simp
  have i: "\<not> i > 50" using Cons.prems(4) by simp
  have nd: "\<not> startswith h ''---''" using Cons.prems(1) by simp
  have IH: "(case readline (concat hs @ cl @ body) of (line, f) \<Rightarrow> header_loop (i + 1) (acc @ [h]) line f)
         = Inr ((acc @ [h]) @ hs, body)"
    using Cons.prems by (intro Cons.IH) auto
  have "header_loop i acc h (concat hs @ cl @ body) = Inr (acc @ h # hs, body)"
    using i nd IH by (subst header_loop.simps) simp
  then show ?case by (simp add: rl)
qed

lemma header_loop_SystemError_iff:
  "i \<le> 51 \<Longrightarrow>
   (header_loop i acc line f = Inl SystemError) =
   (\<forall>l \<in> set (line # read_lines (51 - i) f). \<not> startswith l ''---'')"
proof (induction i acc line f rule: header_loop.induct)
  case (1 i lines line f)
  show ?case
  proof (cases "startswith line ''---''")
    case True
    then show ?thesis by (simp add: header_loop.simps [of i lines line f])
  next
    case nd: False
    show ?thesis
    proof (cases "i > 50")
      case True
      with 1(2) have "i = 51" by simp
      with nd show ?thesis by (simp add: header_loop.simps [of 51 lines line f])
    next
      case False
      obtain l' f' where rl: "readline f = (l', f')" by (cases "readline f")
      have S: "51 - i = Suc (51 - (i + 1))" using False by simp
      have IH: "(header_loop (i + 1) (lines @ [line]) l' f' = Inl SystemError) =
            (\<forall>l \<in> set (l' # read_lines (51 - (i + 1)) f'). \<not> startswith l ''---'')"
        using 1(1) [OF nd False rl [symmetric]] False by simp
      show ?thesis
        using nd False IH rl
        by (simp add: header_loop.simps [of i lines line f] S del: One_nat_def)
    qed
  qed
qed

lemma header_loop_error: "header_loop i acc line f = Inl e \<Longrightarrow> e = SystemError"
proof (induction i acc line f rule: header_loop.induct)
  case (1 i lines line f)
  then show ?case
    by (simp add: header_loop.simps [of i lines line f] split: if_splits prod.splits)
qed

lemma parse_md_file_delimited:
  assumes "full_line ol" and "startswith ol ''---''"
    and "\<forall>h \<in> set hs. full_line h \<and> \<not> startswith h ''---''"
    and "startswith cl ''---''" and "readline (cl @ body) = (cl, body)"
    and "length hs \<le> 51"
  shows "parse_md_file yaml_load to_html (ol @ concat hs @ cl @ body) header_only =
     (case yaml_load (concat hs) of
        None \<Rightarrow> Inl YAMLError
      | Some page \<Rightarrow>
          if \<not> header_only
          then setitem page (YStr ''content'') (YStr (to_html body))
          else Inr page)"
proof -
  have r1: "readline (ol @ concat hs @ cl @ body) = (ol, concat hs @ cl @ body)"
    using assms(1) by (rule readline_full_line)
  have "(case readline (concat hs @ cl @ body) of (line, f) \<Rightarrow> header_loop 0 [] line f)
        = Inr ([] @ hs, body)"
    using assms(3-6) by (intro header_loop_found) auto
  then show ?thesis
    using assms(2) by (simp add: parse_md_file_def r1 split: prod.splits)
qed

lemma parse_md_file_not_started:
  "\<not> startswith (fst (readline text)) ''---'' \<Longrightarrow>
   parse_md_file yaml_load to_html text header_only = Inl SystemError"
  by (cases "readline text") (simp add: parse_md_file_def)

lemma parse_md_file_SystemError_iff:
  "(parse_md_file yaml_load to_html text header_only = Inl SystemError) =
   (case readline text of (first, f1) \<Rightarrow>
      \<not> startswith first ''---'' \<or> (\<forall>l \<in> set (read_lines 52 f1). \<not> startswith l ''---''))"
proof -
  obtain first f1 where r1: "readline text = (first, f1)" by (cases "readline text")
  obtain line f2 where r2: "readline f1 = (line, f2)" by (cases "readline f1")
  have rl: "read_lines 52 f1 = line # read_lines 51 f2"
    using r2 by (simp add: eval_nat_numeral)
  have hl: "(header_loop 0 [] line f2 = Inl SystemError) =
            (\<forall>l \<in> set (line # read_lines 51 f2). \<not> startswith l ''---'')"
    using header_loop_SystemError_iff [of 0 "[]" line f2] by simp
  show ?thesis
  proof (cases "startswith first ''---''")
    case False
    then show ?thesis by (simp add: parse_md_file_def r1)
  next
    case True
    show ?thesis
    proof (cases "header_loop 0 [] line f2")
      case (Inl e)
      then have "e = SystemError" by (rule header_loop_error)
      with Inl True hl show ?thesis by (simp add: parse_md_file_def r1 r2 rl)
    next
      case (Inr res)
      obtain lines f where res: "res = (lines, f)" by (cases res)
      have "parse_md_file yaml_load to_html text header_only \<noteq> Inl SystemError"
        using True Inr res
        by (cases "yaml_load (concat lines)"; cases "the (yaml_load (concat lines))")
           (auto simp: parse_md_file_def r1 r2)
      moreover have "\<not> (\<forall>l \<in> set (line # read_lines 51 f2). \<not> startswith l ''---'')"
        using hl Inr by simp
      ultimately show ?thesis using True by (simp add: r1 rl)
    qed
  qed
qed

lemma parse_md_file_full_is_dict:
  "parse_md_file yaml_load to_html text False = Inr page \<Longrightarrow> \<exists>d. page = YDict d"
proof -
  have "setitem v k w = Inr page \<Longrightarrow> \<exists>d. page = YDict d" for v k w
    by (cases v) auto
  then show "parse_md_file yaml_load to_html text False = Inr page \<Longrightarrow> \<exists>d. page = YDict d"
    by (auto simp: parse_md_file_def split: prod.splits if_splits sum.splits option.splits)
qed

text \<open>
  An empty front matter decodes to \<open>None\<close>, which the assignment of \<open>content\<close> does
  not accept.
\<close>

lemma parse_md_file_empty_front_matter:
  "parse_md_file yaml_table html_table (''---\<newline>'' @ ''---\<newline>'' @ ''body\<newline>'') False =
     Inl TypeError \<and>
   parse_md_file yaml_table html_table (''---\<newline>'' @ ''---\<newline>'' @ ''body\<newline>'') True =
     Inr YNone"
  by code_simp

text \<open>
  C2. A file whose first line does not start with \<open>---\<close> is rejected
  (\<open>parse_md_file_not_started\<close>), but the scan for the closing line does not stop at 50
  lines: the check \<open>i > 50\<close> comes before the 52nd line is given up, so a front-matter
  block of 51 lines closed by the 52nd line after the opening one is accepted and handed
  to the YAML loader. \<open>parse_md_file_SystemError_iff\<close> gives the bound of the code: the
  error is raised exactly when none of the 52 lines after the opening one starts with
  \<open>---\<close>.
\<close>

theorem parse_md_file_51_lines:
  "parse_md_file yaml_load to_html
     (''---\<newline>'' @ concat (replicate 51 ''a: 1\<newline>'') @ ''---\<newline>'' @ body) True =
   (case yaml_load (concat (replicate 51 ''a: 1\<newline>'')) of
      None \<Rightarrow> Inl YAMLError
    | Some page \<Rightarrow> Inr page)"
proof -
  have "parse_md_file yaml_load to_html
     (''---\<newline>'' @ concat (replicate 51 ''a: 1\<newline>'') @ ''---\<newline>'' @ body) True =
     (case yaml_load (concat (replicate 51 ''a: 1\<newline>'')) of
        None \<Rightarrow> Inl YAMLError
      | Some page \<Rightarrow>
          if \<not> True
          then setitem page (YStr ''content'') (YStr (to_html body))
          else Inr page)"
    by (rule parse_md_file_delimited) (simp_all add: full_line_def startswith_def)
  then show ?thesis by (simp cong: option.case_cong)
qed

text \<open>
  C3 (amended). For a file opened by a line starting with \<open>---\<close>, with at most 51
  front-matter lines, closed by a line starting with \<open>---\<close>, whose front matter
  decodes to a mapping \<open>d\<close>: with \<open>header_only\<close> the result is \<open>d\<close>; without it
  the result is \<open>d\<close> with the key \<open>content\<close> set to the HTML conversion of exactly the
  text after the closing line, so every declared key other than \<open>content\<close> keeps its
  decoded value and a declared \<open>content\<close> is replaced.
\<close>

theorem parse_md_file_page:
  assumes "full_line ol" and "startswith ol ''---''"
    and "\<forall>h \<in> set hs. full_line h \<and> \<not> startswith h ''---''"
    and "startswith cl ''---''" and "readline (cl @ body) = (cl, body)"
    and "length hs \<le> 51"
    and "yaml_load (concat hs) = Some (YDict d)"
  shows "parse_md_file yaml_load to_html (ol @ concat hs @ cl @ body) True = Inr (YDict d) \<and>
    (\<exists>d'. parse_md_file yaml_load to_html (ol @ concat hs @ cl @ body) False = Inr (YDict d') \<and>
       d' = AList.update (YStr ''content'') (YStr (to_html body)) d \<and>
       map_of d' (YStr ''content'') = Some (YStr (to_html body)) \<and>
       (\<forall>k. k \<noteq> YStr ''content'' \<longrightarrow> map_of d' k = map_of d k))"
proof -
  have "parse_md_file yaml_load to_html (ol @ concat hs @ cl @ body) header_only =
     (if \<not> header_only
      then setitem (YDict d) (YStr ''content'') (YStr (to_html body))
      else Inr (YDict d))" for header_only
    using parse_md_file_delimited [OF assms(1-6), of yaml_load to_html header_only] assms(7)
    by simp
  then show ?thesis by (simp add: update_conv')
qed

theorem parse_md_file_page_witness:
  "parse_md_file yaml_table html_table
     (''---\<newline>'' @ ''title: First\<newline>'' @ ''---\<newline>'' @ ''body\<newline>'') True =
     Inr (YDict [(YStr ''title'', YStr ''First'')]) \<and>
   parse_md_file yaml_table html_table
     (''---\<newline>'' @ ''title: First\<newline>'' @ ''---\<newline>'' @ ''body\<newline>'') False =
     Inr (YDict [(YStr ''title'', YStr ''First''), (YStr ''content'', YStr ''<p>body</p>\<newline>'')])"
  using parse_md_file_page [of "''---\<newline>''" "[''title: First\<newline>'']" "''---\<newline>''"
      "''body\<newline>''" yaml_table "[(YStr ''title'', YStr ''First'')]" html_table]
  by (simp add: full_line_def startswith_def yaml_table_def html_table_def)

text \<open>
  C3 as stated fails for a front matter that declares \<open>content\<close>: the decoded value
  \<open>x\<close> is not in the page returned.
\<close>

theorem declared_content_key_counterexample:
  "yaml_table ''content: x\<newline>'' = Some (YDict [(YStr ''content'', YStr ''x'')]) \<and>
   parse_md_file yaml_table html_table
     (''---\<newline>'' @ ''content: x\<newline>'' @ ''---\<newline>'' @ ''body\<newline>'') False =
     Inr (YDict [(YStr ''content'', YStr ''<p>body</p>\<newline>'')])"
  by code_simp

text \<open>
  C10. Both delimiter checks match a prefix. An opening line \<open>---\<close> followed by any
  characters \<open>t1\<close> is accepted, and the first later line that starts with \<open>---\<close>,
  whatever characters \<open>t2\<close> follow on it, ends the header: the lines before it are what
  the YAML loader gets and the text after it is the body.
\<close>

theorem delimiters_match_by_prefix:
  assumes "newline \<notin> set t1" and "newline \<notin> set t2"
    and "\<forall>h \<in> set hs. full_line h \<and> \<not> startswith h ''---''"
    and "length hs \<le> 51"
  shows "parse_md_file yaml_load to_html
           ((''---'' @ t1 @ [newline]) @ concat hs @ (''---'' @ t2 @ [newline]) @ body)
           header_only =
         (case yaml_load (concat hs) of
            None \<Rightarrow> Inl YAMLError
          | Some page \<Rightarrow>
              if \<not> header_only
              then setitem page (YStr ''content'') (YStr (to_html body))
              else Inr page)"
proof (rule parse_md_file_delimited)
  show "full_line (''---'' @ t1 @ [newline])"
    using assms(1) by (simp add: full_line_def butlast_append)
  show "startswith (''---'' @ t1 @ [newline]) ''---''" by (simp add: startswith_def)
  show "startswith (''---'' @ t2 @ [newline]) ''---''" by (simp add: startswith_def)
  have "readline ((''---'' @ t2) @ newline # body) = ((''---'' @ t2) @ [newline], body)"
    using assms(2) by (intro readline_append) simp
  then show "readline ((''---'' @ t2 @ [newline]) @ body) = (''---'' @ t2 @ [newline], body)"
    by simp
qed (use assms in auto)

theorem delimiters_match_by_prefix_witness:
  "parse_md_file yaml_table html_table
     (''--- title\<newline>'' @ ''title: First\<newline>'' @ ''----\<newline>'' @ ''body\<newline>'') False =
   Inr (YDict [(YStr ''title'', YStr ''First''), (YStr ''content'', YStr ''<p>body</p>\<newline>'')])"
  using delimiters_match_by_prefix [of "'' title''" "''-''" "[''title: First\<newline>'']"
      yaml_table html_table "''body\<newline>''" False]
  by (simp add: full_line_def startswith_def yaml_table_def html_table_def)

subsection \<open>The content tree scanner\<close>

lemma is_dir_not_file: "is_dir x \<Longrightarrow> \<not> is_file x"
  by (induction x rule: is_file.induct) auto

lemma scan_step:
  assumes "scan yaml_load to_html ((n, x) # es) self = Inr f"
  shows "\<exists>self' gs. scan yaml_load to_html es self' = Inr f \<and>
     path self' = path self \<and> name self' = name self \<and>
     is_index self' = (is_index self \<or> (n = ''_index.md'' \<and> is_file x)) \<and>
     files self' = files self @ md_entries [(n, x)] \<and>
     folders self' = folders self @ gs \<and>
     map Inr gs =
       map (\<lambda>(n, x). Folder_init yaml_load to_html (join (path self) n) (get_name n) x)
         (dir_entries [(n, x)])"
proof -
  have ix: "endswith ''_index.md'' ''.md''" by (simp add: endswith_def)
  consider (isindex) "is_file x" "endswith n ''.md''" "n = ''_index.md''"
    | (ismd) "is_file x" "endswith n ''.md''" "n \<noteq> ''_index.md''"
    | (isdir) "\<not> (is_file x \<and> endswith n ''.md'')" "is_dir x" "\<not> startswith n ''.''"
    | (other) "\<not> (is_file x \<and> endswith n ''.md'')" "\<not> (is_dir x \<and> \<not> startswith n ''.'')"
    by blast
  then show ?thesis
  proof cases
    case isindex
    have nd: "\<not> is_dir x" using isindex(1) is_dir_not_file by blast
    from assms isindex obtain v where
      s: "scan yaml_load to_html es
            (Folder (path self) (name self) True v (folders self) (files self)) = Inr f"
      by (simp split: sum.splits)
    show ?thesis
      apply (rule exI [of _ "Folder (path self) (name self) True v (folders self) (files self)"])
      apply (rule exI [of _ "[]"])
      using s isindex nd by (simp add: md_entries_def dir_entries_def)
  next
    case ismd
    have nd: "\<not> is_dir x" using ismd(1) is_dir_not_file by blast
    from assms ismd have
      s: "scan yaml_load to_html es
            (Folder (path self) (name self) (is_index self) (index self) (folders self)
               (files self @ [(n, fst (splitext (get_name n)))])) = Inr f"
      by simp
    show ?thesis
      apply (rule exI [of _ "Folder (path self) (name self) (is_index self) (index self) (folders self)
               (files self @ [(n, fst (splitext (get_name n)))])"])
      apply (rule exI [of _ "[]"])
      using s ismd nd by (simp add: md_entries_def dir_entries_def)
  next
    case isdir
    have nf: "\<not> is_file x" using isdir(2) is_dir_not_file by blast
    from assms isdir nf obtain g where
      g: "Folder_init yaml_load to_html (join (path self) n) (get_name n) x = Inr g" and
      s: "scan yaml_load to_html es
            (Folder (path self) (name self) (is_index self) (index self) (folders self @ [g])
               (files self)) = Inr f"
      by (simp split: sum.splits)
    show ?thesis
      apply (rule exI [of _ "Folder (path self) (name self) (is_index self) (index self) (folders self @ [g])
               (files self)"])
      apply (rule exI [of _ "[g]"])
      using s isdir nf g by (simp add: md_entries_def dir_entries_def)
  next
    case other
    from assms other have s: "scan yaml_load to_html es self = Inr f" by simp
    show ?thesis
      apply (rule exI [of _ self])
      apply (rule exI [of _ "[]"])
      using s other ix by (auto simp add: md_entries_def dir_entries_def)
  qed
qed


lemma scan_acc:
  assumes "scan yaml_load to_html es self = Inr f"
  shows "\<exists>gs. path f = path self \<and> name f = name self \<and>
     is_index f = (is_index self \<or> list_ex (\<lambda>(n, x). n = ''_index.md'' \<and> is_file x) es) \<and>
     files f = sort_key fst (files self @ md_entries es) \<and>
     folders f = sort_key path (folders self @ gs) \<and>
     map Inr gs =
       map (\<lambda>(n, x). Folder_init yaml_load to_html (join (path self) n) (get_name n) x)
         (dir_entries es)"
  using assms
proof (induction es arbitrary: self)
  case Nil
  then show ?case by (auto simp add: sort_lists_def md_entries_def dir_entries_def)
next
  case (Cons e es)
  obtain n x where e: "e = (n, x)" by (cases e)
  from Cons.prems e obtain self' gs where
    s: "scan yaml_load to_html es self' = Inr f" and
    p: "path self' = path self" "name self' = name self" and
    i: "is_index self' = (is_index self \<or> (n = ''_index.md'' \<and> is_file x))" and
    fl: "files self' = files self @ md_entries [(n, x)]" and
    fd: "folders self' = folders self @ gs" and
    gs: "map Inr gs =
       map (\<lambda>(n, x). Folder_init yaml_load to_html (join (path self) n) (get_name n) x)
         (dir_entries [(n, x)])"
    using scan_step [of yaml_load to_html n x es self f] by blast
  from Cons.IH [OF s] obtain hs where
    h1: "path f = path self'" "name f = name self'" and
    h2: "is_index f = (is_index self' \<or> list_ex (\<lambda>(n, x). n = ''_index.md'' \<and> is_file x) es)" and
    h3: "files f = sort_key fst (files self' @ md_entries es)" and
    h4: "folders f = sort_key path (folders self' @ hs)" and
    h5: "map Inr hs =
       map (\<lambda>(n, x). Folder_init yaml_load to_html (join (path self') n) (get_name n) x)
         (dir_entries es)"
    by blast
  have a: "md_entries (e # es) = md_entries [(n, x)] @ md_entries es"
    by (simp add: md_entries_def e)
  have b: "dir_entries (e # es) = dir_entries [(n, x)] @ dir_entries es"
    by (simp add: dir_entries_def e)
  have c: "map Inr (gs @ hs) =
       map (\<lambda>(n, x). Folder_init yaml_load to_html (join (path self) n) (get_name n) x)
         (dir_entries (e # es))"
    using gs h5 p(1) by (simp only: b map_append)
  have d: "is_index f =
      (is_index self \<or> list_ex (\<lambda>(n, x). n = ''_index.md'' \<and> is_file x) (e # es))"
    using h2 i by (simp add: e)
  show ?case
    apply (rule exI [of _ "gs @ hs"])
    using h1 p h3 fl h4 fd c d by (simp only: a append_assoc simp_thms)
qed


lemma scan_ignores_head:
  assumes "\<not> (is_file x \<and> endswith n ''.md'')" and "\<not> (is_dir x \<and> \<not> startswith n ''.'')"
  shows "scan yaml_load to_html ((n, x) # es) self = scan yaml_load to_html es self"
proof -
  have "(is_file x \<and> endswith n ''.md'') = False" using assms(1) by blast
  moreover have "(is_dir x \<and> \<not> startswith n ''.'') = False" using assms(2) by blast
  ultimately show ?thesis by (simp only: scan.simps if_False)
qed

lemma scan_cong_tail:
  "(\<And>self. scan yaml_load to_html es self = scan yaml_load to_html es' self) \<Longrightarrow>
   scan yaml_load to_html (e # es) self = scan yaml_load to_html (e # es') self"
  by (cases e) (simp split: sum.splits)

lemma scan_ignores:
  assumes "\<not> (is_file x \<and> endswith n ''.md'')" and "\<not> (is_dir x \<and> \<not> startswith n ''.'')"
  shows "scan yaml_load to_html (es1 @ (n, x) # es2) self = scan yaml_load to_html (es1 @ es2) self"
proof (induction es1 arbitrary: self)
  case Nil
  show ?case using scan_ignores_head [OF assms] by (simp only: append_Nil)
next
  case (Cons e es1)
  show ?case unfolding append_Cons by (rule scan_cong_tail) (rule Cons.IH)
qed

text \<open>
  C6 (amended). With links followed, a scan that succeeds records exactly this: the
  folder has an index when the listing has a file named \<open>_index.md\<close>; its content
  files are the other files whose names end in \<open>.md\<close>, dotfiles and links to files
  among them, sorted by file name; its subfolders are the scans of the directories, and
  links to directories, whose names do not start with a dot, sorted by path. An entry
  of no such kind (another extension, a dot-directory, a dangling link) changes
  nothing, wherever it stands in the listing.
\<close>

theorem scan_records:
  assumes "Folder_init yaml_load to_html p nm (Dir es) = Inr f"
  shows "path f = p \<and> name f = nm \<and>
    is_index f = list_ex (\<lambda>(n, x). n = ''_index.md'' \<and> is_file x) es \<and>
    files f = sort_key fst (md_entries es) \<and>
    (\<exists>gs. folders f = sort_key path gs \<and>
       map Inr gs =
         map (\<lambda>(n, x). Folder_init yaml_load to_html (join p n) (get_name n) x)
           (dir_entries es)) \<and>
    (\<not> (is_file x \<and> endswith n ''.md'') \<and> \<not> (is_dir x \<and> \<not> startswith n ''.'') \<longrightarrow>
       scan yaml_load to_html (es1 @ (n, x) # es2) self =
       scan yaml_load to_html (es1 @ es2) self)"
proof -
  from assms have "scan yaml_load to_html es (Folder p nm False (YDict []) [] []) = Inr f"
    by simp
  from scan_acc [OF this] have
    "path f = p \<and> name f = nm \<and>
     is_index f = list_ex (\<lambda>(n, x). n = ''_index.md'' \<and> is_file x) es \<and>
     files f = sort_key fst (md_entries es) \<and>
     (\<exists>gs. folders f = sort_key path gs \<and>
       map Inr gs =
         map (\<lambda>(n, x). Folder_init yaml_load to_html (join p n) (get_name n) x)
           (dir_entries es))"
    by simp
  then show ?thesis using scan_ignores [of x n yaml_load to_html es1 es2 self] by blast
qed

theorem scan_records_witness:
  "files (Folder ''content'' [] False (YDict []) [Folder ''content/2.docs'' ''docs'' False (YDict []) [] []]
       [(''.draft.md'', ''.draft''), (''post.md'', ''post'')]) =
     sort_key fst (md_entries mixed_listing) \<and>
   md_entries mixed_listing = [(''post.md'', ''post''), (''.draft.md'', ''.draft'')] \<and>
   dir_entries mixed_listing = [(''2.docs'', Symlink (Some (Dir [])))]"
proof -
  have "Folder_init yaml_table html_table ''content'' [] (Dir mixed_listing) =
      Inr (Folder ''content'' [] False (YDict []) [Folder ''content/2.docs'' ''docs'' False (YDict []) [] []]
       [(''.draft.md'', ''.draft''), (''post.md'', ''post'')])"
    by code_simp
  from scan_records [OF this] have
    "files (Folder ''content'' [] False (YDict []) [Folder ''content/2.docs'' ''docs'' False (YDict []) [] []]
       [(''.draft.md'', ''.draft''), (''post.md'', ''post'')]) =
     sort_key fst (md_entries mixed_listing)"
    by blast
  moreover have "md_entries mixed_listing = [(''post.md'', ''post''), (''.draft.md'', ''.draft'')]"
    by code_simp
  moreover have "dir_entries mixed_listing = [(''2.docs'', Symlink (Some (Dir [])))]"
    by code_simp
  ultimately show ?thesis by blast
qed

text \<open>
  C6 as stated fails on a dotfile and on a symbolic link: both are recorded as content
  files.
\<close>

theorem scan_dotfile_symlink_counterexample:
  "Folder_init yaml_table html_table ''content'' []
     (Dir [(''post.md'', Symlink (Some (File []))), (''.draft.md'', File [])]) =
   Inr (Folder ''content'' [] False (YDict []) []
          [(''.draft.md'', ''.draft''), (''post.md'', ''post'')])"
  by code_simp

subsection \<open>The rendering pass\<close>



text \<open>
  C1. The scanner's tree for the content directory \<open>content_tree\<close> and the calls of
  the rendering pass into \<open>public\<close>. Each content file is written to
  \<open>out_dir/name/index.html\<close> under its folder's output directory, and so is the root's
  index, whose name is empty; but the index of the folder \<open>blog\<close>, whose output
  directory is \<open>public/blog\<close>, is written to \<open>public/blog/blog/index.html\<close>: the
  folder's name is joined a second time.
\<close>

theorem build_folder_nested_index:
  "Folder_init yaml_table html_table ''content'' [] content_tree = Inr content_root \<and>
   build_folder yaml_table html_table content_read theme_render content_root ''public'' =
   Inr [Makedirs ''public/'', WriteFile ''public/index.html'' ''rendered by index.html'',
        Makedirs ''public/about'', WriteFile ''public/about/index.html'' ''rendered by page.html'',
        Makedirs ''public/blog/blog'', WriteFile ''public/blog/blog/index.html'' ''rendered by index.html'',
        Makedirs ''public/blog/first'', WriteFile ''public/blog/first/index.html'' ''rendered by post.html'',
        Makedirs ''public/blog/special'', WriteFile ''public/blog/special/index.html'' ''rendered by custom.html'']"
  by code_simp


lemma build_index_ops:
  "build_index yaml_load to_html read render folder out_dir = Inr ops \<Longrightarrow>
   \<exists>s. ops = [Makedirs (join out_dir (name folder)),
              WriteFile (join (join out_dir (name folder)) ''index.html'') s]"
  by (auto simp: build_index_def mkdir_def write_page_def Let_def
      split: option.splits sum.splits)

lemma build_file_ops:
  "build_file yaml_load to_html read render folder f out_dir = Inr ops \<Longrightarrow>
   \<exists>s. ops = [Makedirs (join out_dir (snd f)),
              WriteFile (join (join out_dir (snd f)) ''index.html'') s]"
  by (auto simp: build_file_def mkdir_def write_page_def Let_def
      split: option.splits sum.splits)

lemma build_files_written:
  "build_files yaml_load to_html read render folder fls out_dir = Inr ops \<Longrightarrow>
   f \<in> set fls \<Longrightarrow>
   \<exists>s. WriteFile (join (join out_dir (snd f)) ''index.html'') s \<in> set ops"
proof (induction fls arbitrary: ops)
  case Nil
  then show ?case by simp
next
  case (Cons g fls)
  from Cons.prems(1) obtain o1 o2 where
    g: "build_file yaml_load to_html read render folder g out_dir = Inr o1" and
    r: "build_files yaml_load to_html read render folder fls out_dir = Inr o2" and
    ops: "ops = o1 @ o2"
    by (auto split: sum.splits)
  show ?case
  proof (cases "f = g")
    case True
    then show ?thesis using build_file_ops [OF g] ops by auto
  next
    case False
    then have "f \<in> set fls" using Cons.prems(2) by simp
    from Cons.IH [OF r this] show ?thesis using ops by auto
  qed
qed


lemma build_folder_split:
  assumes "build_folder yaml_load to_html read render folder out_dir = Inr ops"
  shows "\<exists>o1 o2 o3. ops = o1 @ o2 @ o3 \<and>
     (if is_index folder
      then build_index yaml_load to_html read render folder out_dir = Inr o1
      else o1 = []) \<and>
     build_files yaml_load to_html read render folder (files folder) out_dir = Inr o2 \<and>
     build_folders yaml_load to_html read render (folders folder) out_dir = Inr o3"
  using assms by (cases folder) (auto split: sum.splits if_splits)



lemma build_folders_sub:
  "build_folders yaml_load to_html read render fds out_dir = Inr ops \<Longrightarrow> g \<in> set fds \<Longrightarrow>
   \<exists>ops'. build_folder yaml_load to_html read render g (join out_dir (name g)) = Inr ops' \<and>
          set ops' \<subseteq> set ops"
proof (induction fds arbitrary: ops)
  case Nil
  then show ?case by simp
next
  case (Cons f fs)
  from Cons.prems(1) obtain o1 o2 where
    a: "build_folder yaml_load to_html read render f (join out_dir (name f)) = Inr o1" and
    b: "build_folders yaml_load to_html read render fs out_dir = Inr o2" and
    ops: "ops = o1 @ o2"
    by (auto split: sum.splits)
  show ?case
  proof (cases "g = f")
    case True
    then show ?thesis using a ops by auto
  next
    case False
    then have "g \<in> set fs" using Cons.prems(2) by simp
    from Cons.IH [OF b this] show ?thesis using ops by auto
  qed
qed

lemma build_folder_writes:
  assumes "build_folder yaml_load to_html read render folder out_dir = Inr ops"
  shows "(is_index folder \<longrightarrow>
       (\<exists>s. WriteFile (join (join out_dir (name folder)) ''index.html'') s \<in> set ops)) \<and>
    (\<forall>f \<in> set (files folder).
       \<exists>s. WriteFile (join (join out_dir (snd f)) ''index.html'') s \<in> set ops) \<and>
    (\<forall>g \<in> set (folders folder).
       \<exists>ops'. build_folder yaml_load to_html read render g (join out_dir (name g)) = Inr ops' \<and>
              set ops' \<subseteq> set ops)"
proof -
  from build_folder_split [OF assms] obtain o1 o2 o3 where
    ops: "ops = o1 @ o2 @ o3" and
    a: "if is_index folder
        then build_index yaml_load to_html read render folder out_dir = Inr o1
        else o1 = []" and
    b: "build_files yaml_load to_html read render folder (files folder) out_dir = Inr o2" and
    c: "build_folders yaml_load to_html read render (folders folder) out_dir = Inr o3"
    by auto
  have 1: "is_index folder \<longrightarrow>
       (\<exists>s. WriteFile (join (join out_dir (name folder)) ''index.html'') s \<in> set ops)"
    using a build_index_ops [of yaml_load to_html read render folder out_dir o1] ops by fastforce
  have 2: "\<forall>f \<in> set (files folder).
       \<exists>s. WriteFile (join (join out_dir (snd f)) ''index.html'') s \<in> set ops"
    using build_files_written [OF b] ops by auto
  have 3: "\<forall>g \<in> set (folders folder).
       \<exists>ops'. build_folder yaml_load to_html read render g (join out_dir (name g)) = Inr ops' \<and>
              set ops' \<subseteq> set ops"
    using build_folders_sub [OF c] ops by fastforce
  show ?thesis using 1 2 3 by blast
qed

subsection \<open>The clean step\<close>






text \<open>A link to a directory stops the clean step.\<close>

lemma clean_refuses_linked_directory:
  "clean (Some [(''index.html'', File ''old''), (''latest'', Symlink (Some (Dir [])))]) =
   Inl OSError"
  by code_simp

subsection \<open>The static copy\<close>

lemma write_through_file:
  "write_through c dst = Inr y \<Longrightarrow> is_file y \<and> contents y = c"
  by (induction c dst arbitrary: y rule: write_through.induct) (auto split: sum.splits)

lemma shutil_copy_holds:
  "shutil_copy c n dst = Inr y \<Longrightarrow>
   holds_copy c n y \<and> is_dir y = (case dst of None \<Rightarrow> False | Some d \<Rightarrow> is_dir d)"
proof (induction c n dst arbitrary: y rule: shutil_copy.induct)
  case (1 c xname es)
  then obtain x' where w: "write_through c (map_of es xname) = Inr x'"
    and y: "y = Dir (AList.update xname x' es)"
    by (auto split: sum.splits)
  from write_through_file [OF w] show ?case
    by (simp add: y holds_copy_def update_conv')
next
  case (2 c xname t)
  show ?case
  proof (cases "is_dir t")
    case True
    with 2(2) obtain t' where s: "shutil_copy c xname (Some t) = Inr t'"
      and y: "y = Symlink (Some t')"
      by (auto split: sum.splits)
    from 2(1) [OF True s] True show ?thesis
      by (simp add: y holds_copy_def)
  next
    case False
    with 2(2) have w: "write_through c (Some (Symlink (Some t))) = Inr y" by simp
    from write_through_file [OF w] False show ?thesis
      by (auto simp add: holds_copy_def dest: is_dir_not_file)
  qed
qed (auto simp: holds_copy_def)

lemma entry_update:
  "entry (Some (AList.update m y os)) n = (if n = m then Some y else map_of os n)"
  by (simp add: entry_def update_conv')

lemma copy_step:
  assumes "copy ((m, x) # es) out = Inr out'"
  shows "\<exists>out1. copy es out1 = Inr out' \<and>
     (\<forall>n. n \<noteq> m \<longrightarrow> entry out1 n = entry out n) \<and>
     (is_file x \<longrightarrow>
        (\<exists>y. shutil_copy (contents x) m (entry out m) = Inr y \<and> entry out1 m = Some y)) \<and>
     (is_dir x \<longrightarrow> entry out m = None \<and> entry out1 m \<noteq> None) \<and>
     (\<not> is_file x \<and> \<not> is_dir x \<longrightarrow> out1 = out)"
proof -
  consider (f) "is_file x" | (d) "\<not> is_file x" "is_dir x" | (o) "\<not> is_file x" "\<not> is_dir x"
    by blast
  then show ?thesis
  proof cases
    case f
    have nd: "\<not> is_dir x" using f is_dir_not_file by blast
    from assms f obtain os y where o: "out = Some os"
      and y: "shutil_copy (contents x) m (map_of os m) = Inr y"
      and c: "copy es (Some (AList.update m y os)) = Inr out'"
      by (auto split: option.splits sum.splits)
    show ?thesis
      apply (rule exI [of _ "Some (AList.update m y os)"])
      using c y f nd by (simp add: entry_update) (simp add: entry_def o)
  next
    case d
    from assms d obtain y where
      y: "shutil_copytree x (entry out m) = Inr y"
      and c: "copy es (Some (AList.update m y (case out of None \<Rightarrow> [] | Some os \<Rightarrow> os))) = Inr out'"
      by (auto simp: entry_def split: sum.splits)
    have e: "entry out m = None" using y by (cases "entry out m") auto
    show ?thesis
      apply (rule exI [of _ "Some (AList.update m y (case out of None \<Rightarrow> [] | Some os \<Rightarrow> os))"])
      using c d e by (simp add: entry_update) (simp add: entry_def split: option.splits)
  next
    case o
    from assms o have "copy es out = Inr out'" by simp
    with o show ?thesis by auto
  qed
qed

lemma copy_frame:
  "copy es out = Inr out' \<Longrightarrow> n \<notin> fst ` set es \<Longrightarrow> entry out' n = entry out n"
proof (induction es arbitrary: out)
  case Nil
  then show ?case by simp
next
  case (Cons e es)
  obtain m x where e: "e = (m, x)" by (cases e)
  from Cons.prems(1) e obtain out1 where c: "copy es out1 = Inr out'"
    and fr: "\<forall>n. n \<noteq> m \<longrightarrow> entry out1 n = entry out n"
    using copy_step [of m x es out out'] by blast
  have "n \<noteq> m" using Cons.prems(2) e by auto
  moreover have "n \<notin> fst ` set es" using Cons.prems(2) by auto
  ultimately show ?case using Cons.IH [OF c] fr by simp
qed

lemma copy_keeps:
  "copy es out = Inr out' \<Longrightarrow> entry out n \<noteq> None \<Longrightarrow> entry out' n \<noteq> None"
proof (induction es arbitrary: out)
  case Nil
  then show ?case by simp
next
  case (Cons e es)
  obtain m x where e: "e = (m, x)" by (cases e)
  from Cons.prems(1) e obtain out1 where c: "copy es out1 = Inr out'"
    and fr: "\<forall>n. n \<noteq> m \<longrightarrow> entry out1 n = entry out n"
    and f: "is_file x \<longrightarrow>
        (\<exists>y. shutil_copy (contents x) m (entry out m) = Inr y \<and> entry out1 m = Some y)"
    and d: "is_dir x \<longrightarrow> entry out m = None \<and> entry out1 m \<noteq> None"
    and o: "\<not> is_file x \<and> \<not> is_dir x \<longrightarrow> out1 = out"
    using copy_step [of m x es out out'] by blast
  have "entry out1 n \<noteq> None"
  proof (cases "n = m")
    case True
    then show ?thesis using f d o Cons.prems(2) by (cases "is_file x"; cases "is_dir x") auto
  next
    case False
    then show ?thesis using fr Cons.prems(2) by simp
  qed
  then show ?case using Cons.IH [OF c] by simp
qed

lemma copy_creates:
  "copy es out = Inr out' \<Longrightarrow> (n, x) \<in> set es \<Longrightarrow> is_file x \<or> is_dir x \<Longrightarrow>
   entry out' n \<noteq> None"
proof (induction es arbitrary: out)
  case Nil
  then show ?case by simp
next
  case (Cons e es)
  obtain m x' where e: "e = (m, x')" by (cases e)
  from Cons.prems(1) e obtain out1 where c: "copy es out1 = Inr out'"
    and f: "is_file x' \<longrightarrow>
        (\<exists>y. shutil_copy (contents x') m (entry out m) = Inr y \<and> entry out1 m = Some y)"
    and d: "is_dir x' \<longrightarrow> entry out m = None \<and> entry out1 m \<noteq> None"
    using copy_step [of m x' es out out'] by blast
  show ?case
  proof (cases "(n, x) = (m, x')")
    case True
    then have "entry out1 n \<noteq> None" using f d Cons.prems(3) by auto
    then show ?thesis using copy_keeps [OF c] by simp
  next
    case False
    then have "(n, x) \<in> set es" using Cons.prems(2) e by auto
    then show ?thesis using Cons.IH [OF c _ Cons.prems(3)] by simp
  qed
qed

lemma copy_dir_collision:
  "(n, tx) \<in> set es \<Longrightarrow> is_dir tx \<Longrightarrow> entry out n \<noteq> None \<Longrightarrow> \<exists>e. copy es out = Inl e"
proof (induction es arbitrary: out)
  case Nil
  then show ?case by simp
next
  case (Cons e es)
  obtain m x where e: "e = (m, x)" by (cases e)
  show ?case
  proof (cases "copy (e # es) out")
    case (Inl err)
    then show ?thesis by blast
  next
    case (Inr out')
    with e obtain out1 where c: "copy es out1 = Inr out'"
      and fr: "\<forall>n. n \<noteq> m \<longrightarrow> entry out1 n = entry out n"
      and f: "is_file x \<longrightarrow>
        (\<exists>y. shutil_copy (contents x) m (entry out m) = Inr y \<and> entry out1 m = Some y)"
      and d: "is_dir x \<longrightarrow> entry out m = None \<and> entry out1 m \<noteq> None"
      and o: "\<not> is_file x \<and> \<not> is_dir x \<longrightarrow> out1 = out"
      using copy_step [of m x es out out'] by blast
    have ne: "(n, tx) \<noteq> (m, x)"
    proof
      assume "(n, tx) = (m, x)"
      then have "is_dir x" "entry out m \<noteq> None" using Cons.prems by auto
      then show False using d by simp
    qed
    then have mem: "(n, tx) \<in> set es" using Cons.prems(1) e by auto
    have "entry out1 n \<noteq> None"
    proof (cases "n = m")
      case True
      then show ?thesis using f d o Cons.prems(3) by (cases "is_file x"; cases "is_dir x") auto
    next
      case False
      then show ?thesis using fr Cons.prems(3) by simp
    qed
    from Cons.IH [OF mem Cons.prems(2) this] c show ?thesis by simp
  qed
qed

lemma copy_file_wins:
  assumes "copy es out = Inr out'" and "distinct (map fst es)"
    and "(n, tx) \<in> set es" and "is_file tx"
  shows "\<exists>y. entry out' n = Some y \<and> holds_copy (contents tx) n y \<and> is_dir y = dir_at out n"
  using assms
proof (induction es arbitrary: out)
  case Nil
  then show ?case by simp
next
  case (Cons e es)
  obtain m x where e: "e = (m, x)" by (cases e)
  from Cons.prems(1) e obtain out1 where c: "copy es out1 = Inr out'"
    and fr: "\<forall>n. n \<noteq> m \<longrightarrow> entry out1 n = entry out n"
    and f: "is_file x \<longrightarrow>
        (\<exists>y. shutil_copy (contents x) m (entry out m) = Inr y \<and> entry out1 m = Some y)"
    using copy_step [of m x es out out'] by blast
  have dist: "distinct (map fst es)" and notin: "m \<notin> fst ` set es"
    using Cons.prems(2) e by auto
  show ?case
  proof (cases "n = m")
    case True
    have "(n, tx) \<notin> set es" using notin True by force
    then have x: "x = tx" using Cons.prems(3) e True by auto
    from f x Cons.prems(4) obtain y where
      y: "shutil_copy (contents tx) m (entry out m) = Inr y" and e1: "entry out1 m = Some y"
      by blast
    have "entry out' m = Some y" using copy_frame [OF c notin] e1 by simp
    moreover have "holds_copy (contents tx) m y \<and> is_dir y = dir_at out m"
      using shutil_copy_holds [OF y] by (simp add: dir_at_def)
    ultimately show ?thesis using True by simp
  next
    case False
    then have mem: "(n, tx) \<in> set es" using Cons.prems(3) e by auto
    have "dir_at out1 n = dir_at out n" using fr False by (simp add: dir_at_def)
    then show ?thesis using Cons.IH [OF c dist mem Cons.prems(4)] by simp
  qed
qed


text \<open>
  C5. When the static copy completes, a name that is a file in the site-wide and in
  the theme's static directory holds the theme's text in the output root: the entry of
  that name is a file with the theme's text, the theme's copy having come second; and
  where the output root had a directory of that name before the step, both copies
  went into it and its entry of that name is the file with the theme's text.
\<close>

theorem theme_file_wins:
  assumes "copy_static_files (Some s_es) (Some t_es) out = Inr out'"
    and "distinct (map fst s_es)" and "(n, sx) \<in> set s_es" and "is_file sx"
    and "distinct (map fst t_es)" and "(n, tx) \<in> set t_es" and "is_file tx"
  shows "\<exists>y. entry out' n = Some y \<and>
    (if dir_at out n
     then is_dir y \<and> (\<exists>z. lookup_in y n = Some z \<and> is_file z \<and> contents z = contents tx)
     else is_file y \<and> contents y = contents tx)"
proof -
  from assms(1) obtain out1 where c1: "copy s_es out = Inr out1"
    and c2: "copy t_es out1 = Inr out'"
    by (auto simp: copy_static_files_def split: sum.splits)
  from copy_file_wins [OF c1 assms(2-4)] have d1: "dir_at out1 n = dir_at out n"
    by (auto simp: dir_at_def)
  from copy_file_wins [OF c2 assms(5-7)] obtain y where
    y: "entry out' n = Some y" "holds_copy (contents tx) n y" "is_dir y = dir_at out1 n"
    by blast
  show ?thesis
  proof (cases "dir_at out n")
    case True
    then have "is_dir y" using y(3) d1 by simp
    then show ?thesis using y(1,2) True
      by (auto simp: holds_copy_def split: option.splits)
  next
    case False
    then have "\<not> is_dir y" using y(3) d1 by simp
    then show ?thesis using y(1,2) False by (simp add: holds_copy_def)
  qed
qed

theorem theme_file_wins_witness:
  "copy_static_files
     (Some [(''logo.png'', File ''site logo''), (''robots.txt'', File ''site robots'')])
     (Some [(''style.css'', File ''theme style''), (''logo.png'', File ''theme logo'')])
     (Some [(''index.html'', File ''rendered by index.html'')]) =
   Inr (Some [(''index.html'', File ''rendered by index.html''),
              (''logo.png'', File ''theme logo''),
              (''robots.txt'', File ''site robots''),
              (''style.css'', File ''theme style'')]) \<and>
   (\<exists>y. entry (Some [(''index.html'', File ''rendered by index.html''),
              (''logo.png'', File ''theme logo''),
              (''robots.txt'', File ''site robots''),
              (''style.css'', File ''theme style'')]) ''logo.png'' = Some y \<and>
        is_file y \<and> contents y = ''theme logo'')"
proof -
  have run: "copy_static_files
     (Some [(''logo.png'', File ''site logo''), (''robots.txt'', File ''site robots'')])
     (Some [(''style.css'', File ''theme style''), (''logo.png'', File ''theme logo'')])
     (Some [(''index.html'', File ''rendered by index.html'')]) =
   Inr (Some [(''index.html'', File ''rendered by index.html''),
              (''logo.png'', File ''theme logo''),
              (''robots.txt'', File ''site robots''),
              (''style.css'', File ''theme style'')])"
    by code_simp
  have nd: "\<not> dir_at (Some [(''index.html'', File ''rendered by index.html'')]) ''logo.png''"
    by (simp add: dir_at_def entry_def)
  show ?thesis
    using theme_file_wins [OF run, of "''logo.png''" "File ''site logo''" "File ''theme logo''"] nd run
    by simp
qed

text \<open>
  The same two listings copied into an output root that has a page directory
  \<open>logo.png\<close>: both files go into the directory.
\<close>

lemma copy_into_page_directory:
  "copy_static_files
     (Some [(''logo.png'', File ''site logo'')])
     (Some [(''logo.png'', File ''theme logo'')])
     (Some [(''logo.png'', Dir [(''index.html'', File ''rendered by page.html'')])]) =
   Inr (Some [(''logo.png'', Dir [(''index.html'', File ''rendered by page.html''),
                                  (''logo.png'', File ''theme logo'')])])"
  by code_simp

text \<open>
  C9. A directory of the theme's static directory whose name is already taken in the
  output root makes the static copy fail, and so does a directory name that the
  site-wide and the theme's static directory share, the site-wide one being copied
  first: \<open>shutil.copytree\<close> neither merges nor replaces.
\<close>

theorem theme_directory_collides:
  "((n, tx) \<in> set t_es \<and> is_dir tx \<and> entry out n = Some d \<longrightarrow>
      (\<exists>e. copy_static_files static (Some t_es) out = Inl e)) \<and>
   ((n, sx) \<in> set s_es \<and> is_dir sx \<and> (n, tx) \<in> set t_es \<and> is_dir tx \<longrightarrow>
      (\<exists>e. copy_static_files (Some s_es) (Some t_es) out = Inl e))"
proof -
  have a: "\<exists>e. copy_static_files static (Some t_es) out = Inl e"
    if h: "(n, tx) \<in> set t_es" "is_dir tx" "entry out n \<noteq> None" for static out
  proof (cases static)
    case None
    then show ?thesis using copy_dir_collision [OF h] by (auto simp: copy_static_files_def)
  next
    case (Some es)
    show ?thesis
    proof (cases "copy es out")
      case (Inl e)
      then show ?thesis using Some by (simp add: copy_static_files_def)
    next
      case (Inr out1)
      from copy_keeps [OF Inr h(3)] have "entry out1 n \<noteq> None" .
      from copy_dir_collision [OF h(1,2) this] show ?thesis
        using Some Inr by (auto simp: copy_static_files_def)
    qed
  qed
  have b: "\<exists>e. copy_static_files (Some s_es) (Some t_es) out = Inl e"
    if h: "(n, sx) \<in> set s_es" "is_dir sx" "(n, tx) \<in> set t_es" "is_dir tx"
  proof (cases "copy s_es out")
    case (Inl e)
    then show ?thesis by (simp add: copy_static_files_def)
  next
    case (Inr out1)
    from copy_creates [OF Inr h(1)] h(2) have "entry out1 n \<noteq> None" by simp
    from copy_dir_collision [OF h(3,4) this] show ?thesis
      using Inr by (auto simp: copy_static_files_def)
  qed
  show ?thesis using a b by auto
qed

theorem theme_directory_collides_witness:
  "(\<exists>e. copy_static_files (Some [(''logo.png'', File ''site logo'')])
          (Some [(''css'', Dir [(''theme.css'', File ''t'')])])
          (Some [(''css'', Dir [(''old.css'', File ''o'')])]) = Inl e) \<and>
   (\<exists>e. copy_static_files (Some [(''css'', Dir [(''site.css'', File ''s'')])])
          (Some [(''css'', Dir [(''theme.css'', File ''t'')])]) (Some []) = Inl e) \<and>
   copy_static_files (Some [(''css'', Dir [(''site.css'', File ''s'')])])
          (Some [(''css'', Dir [(''theme.css'', File ''t'')])]) (Some []) = Inl FileExistsError"
proof -
  have "copy_static_files (Some [(''css'', Dir [(''site.css'', File ''s'')])])
          (Some [(''css'', Dir [(''theme.css'', File ''t'')])]) (Some []) = Inl FileExistsError"
    by code_simp
  then show ?thesis
    using theme_directory_collides [of "''css''" "Dir [(''theme.css'', File ''t'')]"
        "[(''css'', Dir [(''theme.css'', File ''t'')])]"
        "Some [(''css'', Dir [(''old.css'', File ''o'')])]" "Dir [(''old.css'', File ''o'')]"
        "Some [(''logo.png'', File ''site logo'')]" "Dir [(''site.css'', File ''s'')]"
        "[(''css'', Dir [(''site.css'', File ''s'')])]"]
      theme_directory_collides [of "''css''" "Dir [(''theme.css'', File ''t'')]"
        "[(''css'', Dir [(''theme.css'', File ''t'')])]"
        "Some []" "Dir []"
        "None" "Dir [(''site.css'', File ''s'')]"
        "[(''css'', Dir [(''site.css'', File ''s'')])]"]
    by (simp add: entry_def)
qed


subsection \<open>Name derivation\<close>

lemma get_name_no_digit:
  "nm = [] \<or> \<not> isdigit (hd nm) \<Longrightarrow> get_name nm = nm"
  by (cases nm) (auto simp: get_name_def Let_def split: list.splits)

lemma get_name_strip:
  assumes "ds \<noteq> []" and "\<forall>d \<in> set ds. isdigit d"
    and "r \<noteq> []" and "newline \<notin> set r"
  shows "get_name (ds @ ''.'' @ r) = r"
proof -
  have nd: "\<not> isdigit CHR ''.''" by (simp add: isdigit_def)
  have tw: "takeWhile isdigit (ds @ CHR ''.'' # r) = ds"
    using assms(2) nd by simp
  have dw: "dropWhile isdigit (ds @ CHR ''.'' # r) = CHR ''.'' # r"
    using assms(2) nd by simp
  have g: "takeWhile (\<lambda>x. x \<noteq> newline) r = r"
    using assms(4) by (induction r) auto
  show ?thesis
    using assms(1,3) by (simp add: get_name_def Let_def tw dw g)
qed


end
